theory Spec2Isabelle
  imports Complex_Main
begin

section \<open>Python primitives used by the pipeline\<close>

text \<open>
  Durations and offsets are Python floats in the source; they are modelled as exact
  rationals (\<open>rat\<close>).  Integers are Python's unbounded ints (\<open>int\<close>).  Strings are
  \<open>string\<close>, one \<open>char\<close> per character.  Exceptions are values of \<open>exn\<close>; a function
  that may raise returns \<open>exn + 'a\<close> with \<open>Inl\<close> for the raise.
\<close>

datatype exn =
    FileNotFoundError
  | CalledProcessError
  | ZeroDivisionError
  | OverflowError
  | ValueError
  | KeyError
  | RuntimeError

text \<open>\<open>int(x)\<close> on a float truncates towards zero.\<close>

definition py_int :: "rat \<Rightarrow> int" where
  "py_int x = (if 0 \<le> x then \<lfloor>x\<rfloor> else \<lceil>x\<rceil>)"

text \<open>\<open>a % b\<close> on ints: the result has the sign of the divisor; a zero divisor raises.\<close>

definition py_mod :: "int \<Rightarrow> int \<Rightarrow> exn + int" where
  "py_mod a b = (if b = 0 then Inl ZeroDivisionError else Inr (a mod b))"

text \<open>Decimal rendering of a natural number (\<open>%d\<close>).\<close>

definition digit_char :: "nat \<Rightarrow> char" where
  "digit_char d = ''0123456789'' ! d"

fun str_nat :: "nat \<Rightarrow> string" where
  "str_nat n = (if n < 10 then [digit_char n] else str_nat (n div 10) @ [digit_char (n mod 10)])"

declare str_nat.simps [simp del]

definition str_int :: "int \<Rightarrow> string" where
  "str_int i = (if i < 0 then CHR ''-'' # str_nat (nat (- i)) else str_nat (nat i))"

text \<open>Zero padding to a minimal width (\<open>%02d\<close>, \<open>:03d\<close>, \<open>:06d\<close>); the sign counts in the width.\<close>

definition zpad :: "nat \<Rightarrow> string \<Rightarrow> string" where
  "zpad w s = replicate (w - length s) CHR ''0'' @ s"

definition fmt_0d :: "nat \<Rightarrow> int \<Rightarrow> string" where
  "fmt_0d w i = (if i < 0 then CHR ''-'' # zpad (w - 1) (str_nat (nat (- i))) else zpad w (str_nat (nat i)))"

text \<open>
  \<open>str.strip()\<close>: removes leading and trailing whitespace.  The whitespace characters in
  the range of \<open>char\<close> are TAB, LF, VT, FF, CR, FS, GS, RS, US, SPACE, NEL and NBSP.
\<close>

definition py_isspace :: "char \<Rightarrow> bool" where
  "py_isspace c = (of_char c \<in> {9, 10, 11, 12, 13, 28, 29, 30, 31, 32, 133, 160 :: nat})"

definition strip :: "string \<Rightarrow> string" where
  "strip s = rev (dropWhile py_isspace (rev (dropWhile py_isspace s)))"

text \<open>\<open>os.path.join\<close> of a directory and a relative file name, and \<open>os.path.basename\<close>.\<close>

definition path_join :: "string \<Rightarrow> string \<Rightarrow> string" where
  "path_join d f = (if d = [] \<or> last d = CHR ''/'' then d @ f else d @ ''/'' @ f)"

definition basename :: "string \<Rightarrow> string" where
  "basename p = rev (takeWhile (\<lambda>c. c \<noteq> CHR ''/'') (rev p))"

text \<open>A Python \<open>dict\<close> with string keys, in insertion order: \<open>d[k] = v\<close> and \<open>d.get(k)\<close>.\<close>

type_synonym 'v dict = "(string \<times> 'v) list"

fun dict_set :: "string \<Rightarrow> 'v \<Rightarrow> 'v dict \<Rightarrow> 'v dict" where
  "dict_set k v [] = [(k, v)]"
| "dict_set k v (p # ps) = (if fst p = k then (k, v) # ps else p # dict_set k v ps)"


section \<open>Timestamp labels: \<open>format_timestamp\<close>\<close>

text \<open>
  \<open>str(datetime.timedelta(seconds=n))\<close> for an int \<open>n\<close>, as the standard library computes
  it: the value is normalised to days and \<open>0 \<le> seconds < 86400\<close>, the constructor raises
  \<open>OverflowError\<close> when the days leave \<open>[-999999999, 999999999]\<close>, and the rendering is
  \<open>"%d:%02d:%02d"\<close> of hours, minutes and seconds, prefixed by \<open>"%d day%s, "\<close> when the
  days are not zero.
\<close>

definition timedelta_str :: "int \<Rightarrow> exn + string" where
  "timedelta_str n =
     (let days = n div 86400;
          secs = nat (n mod 86400);
          mm = secs div 60;
          ss = secs mod 60;
          hh = mm div 60;
          mi = mm mod 60;
          s = str_nat hh @ '':'' @ zpad 2 (str_nat mi) @ '':'' @ zpad 2 (str_nat ss)
      in if \<bar>days\<bar> > 999999999 then Inl OverflowError
         else if days \<noteq> 0
              then Inr (str_int days @ '' day'' @ (if \<bar>days\<bar> \<noteq> 1 then ''s'' else []) @ '', '' @ s)
              else Inr s)"

text \<open>\<open>format_timestamp(seconds) = str(datetime.timedelta(seconds=int(seconds)))\<close>\<close>

definition format_timestamp :: "rat \<Rightarrow> exn + string" where
  "format_timestamp seconds = timedelta_str (py_int seconds)"

text \<open>
  The rendering the specification describes: \<open>H:MM:SS\<close> of a number of whole seconds,
  hours without leading zero, minutes and seconds on two digits.
\<close>

definition hms :: "int \<Rightarrow> string" where
  "hms n = str_nat (nat n div 3600) @ '':'' @ zpad 2 (str_nat (nat n div 60 mod 60))
             @ '':'' @ zpad 2 (str_nat (nat n mod 60))"

section \<open>Chunk splitter: \<open>split_audio_into_chunks\<close>\<close>

text \<open>
  The splitter talks to the file system and to two external tools.  Their answers are the
  environment: whether the audio file exists, what the probe reports (a duration, or the
  exception it ends in), and whether the invocation carving chunk \<open>i\<close> exits with status 0.
\<close>

record split_env =
  audio_exists :: bool
  probe :: "exn + rat"
  carve :: "nat \<Rightarrow> bool"

definition chunk_path :: "string \<Rightarrow> nat \<Rightarrow> string" where
  "chunk_path chunk_dir i = path_join chunk_dir (''chunk_'' @ fmt_0d 3 (int i) @ ''.wav'')"

text \<open>
  The loop \<open>for i in range(num_chunks)\<close>: \<open>start_time = i * chunk_duration\<close>, one tool
  invocation (a non-zero exit raises), then the two appends.
\<close>

fun carve_chunks ::
  "(nat \<Rightarrow> bool) \<Rightarrow> string \<Rightarrow> int \<Rightarrow> nat list \<Rightarrow> string list \<times> int list
     \<Rightarrow> exn + string list \<times> int list" where
  "carve_chunks ok chunk_dir chunk_duration [] acc = Inr acc"
| "carve_chunks ok chunk_dir chunk_duration (i # rest) acc =
     (if ok i
      then carve_chunks ok chunk_dir chunk_duration rest
             (fst acc @ [chunk_path chunk_dir i], snd acc @ [int i * chunk_duration])
      else Inl CalledProcessError)"

text \<open>\<open>num_chunks = int(duration / chunk_duration) + 1\<close>; the division is float division.\<close>

definition num_chunks_of :: "rat \<Rightarrow> int \<Rightarrow> exn + int" where
  "num_chunks_of duration chunk_duration =
     (if chunk_duration = 0 then Inl ZeroDivisionError
      else Inr (py_int (duration / of_int chunk_duration) + 1))"

text \<open>\<open>modules/utils.py\<close>: returns \<open>(chunk_files, timestamps, num_chunks)\<close>.\<close>

definition split_audio_into_chunks ::
  "split_env \<Rightarrow> string \<Rightarrow> int \<Rightarrow> exn + string list \<times> int list \<times> int" where
  "split_audio_into_chunks env chunk_dir chunk_duration =
     (if \<not> audio_exists env then Inl FileNotFoundError
      else case probe env of
        Inl e \<Rightarrow> Inl e
      | Inr duration \<Rightarrow>
          (case num_chunks_of duration chunk_duration of
             Inl e \<Rightarrow> Inl e
           | Inr num_chunks \<Rightarrow>
               (case carve_chunks (carve env) chunk_dir chunk_duration [0..<nat num_chunks] ([], []) of
                  Inl e \<Rightarrow> Inl e
                | Inr acc \<Rightarrow> Inr (fst acc, snd acc, num_chunks))))"

text \<open>\<open>video_to_text.py\<close>: no existence check, returns \<open>(chunk_files, timestamps)\<close>.\<close>

definition cli_split_audio_into_chunks ::
  "split_env \<Rightarrow> string \<Rightarrow> int \<Rightarrow> exn + string list \<times> int list" where
  "cli_split_audio_into_chunks env chunk_dir chunk_duration =
     (case probe env of
        Inl e \<Rightarrow> Inl e
      | Inr duration \<Rightarrow>
          (case num_chunks_of duration chunk_duration of
             Inl e \<Rightarrow> Inl e
           | Inr num_chunks \<Rightarrow>
               carve_chunks (carve env) chunk_dir chunk_duration [0..<nat num_chunks] ([], [])))"

section \<open>Frame capture: \<open>extract_screenshot\<close>\<close>

text \<open>
  What one frame-grab invocation of the media tool can end in: a non-zero exit status, or
  exit status 0 with the output file missing, empty, or written.
\<close>

datatype ffmpeg_outcome = ExitNonZero | NoOutputFile | EmptyOutputFile | FrameWritten

record shot_env =
  video_exists :: bool
  ffmpeg :: ffmpeg_outcome

text \<open>
  \<open>modules/utils.py\<close>: raises when the video is missing, catches the tool's
  \<open>CalledProcessError\<close> and returns \<open>False\<close>, then checks the output file.
\<close>

definition extract_screenshot :: "shot_env \<Rightarrow> exn + bool" where
  "extract_screenshot env =
     (if \<not> video_exists env then Inl FileNotFoundError
      else case ffmpeg env of
        ExitNonZero \<Rightarrow> Inr False
      | NoOutputFile \<Rightarrow> Inr False
      | EmptyOutputFile \<Rightarrow> Inr False
      | FrameWritten \<Rightarrow> Inr True)"

text \<open>
  \<open>video_to_text.py\<close>: \<open>subprocess.run(cmd, check=True)\<close> stands outside any \<open>try\<close>, so
  a non-zero exit leaves the function as \<open>CalledProcessError\<close>.
\<close>

definition cli_extract_screenshot :: "ffmpeg_outcome \<Rightarrow> exn + bool" where
  "cli_extract_screenshot out =
     (case out of
        ExitNonZero \<Rightarrow> Inl CalledProcessError
      | NoOutputFile \<Rightarrow> Inr False
      | EmptyOutputFile \<Rightarrow> Inr False
      | FrameWritten \<Rightarrow> Inr True)"

section \<open>The interactive pipeline: \<open>transcriber.process_video\<close>\<close>

text \<open>
  A recognised segment carries its start offset within the chunk and its text.  Each
  segment of a run comes with the environment a frame grab at that segment would meet.
\<close>

record segment =
  seg_start :: rat
  seg_text :: string

type_synonym seg_run = "segment \<times> shot_env"

text \<open>
  The mutable state of one run: the transcript list, the screenshots dict, and two logs
  that record what the run did: every invocation of \<open>extract_screenshot\<close> with its
  output path and timestamp, and every call of the progress callback.
\<close>

record job_state =
  timestamped_chunks :: "(string \<times> string) list"
  screenshots :: "string dict"
  captures :: "(string \<times> string) list"
  progress_log :: "(string \<times> rat) list"

definition init_state :: job_state where
  "init_state = \<lparr>timestamped_chunks = [], screenshots = [], captures = [], progress_log = []\<rparr>"

definition progress_callback :: "string \<Rightarrow> rat \<Rightarrow> job_state \<Rightarrow> job_state" where
  "progress_callback text p st = st\<lparr>progress_log := progress_log st @ [(text, p)]\<rparr>"

definition screenshot_path :: "string \<Rightarrow> rat \<Rightarrow> string" where
  "screenshot_path screenshots_dir segment_start =
     path_join screenshots_dir (''screenshot_'' @ fmt_0d 6 (py_int segment_start) @ ''.jpg'')"

text \<open>The sampling rule \<open>int(segment_start) % timestamp_interval < 5\<close>.\<close>

definition screenshot_due :: "rat \<Rightarrow> int \<Rightarrow> exn + bool" where
  "screenshot_due segment_start timestamp_interval =
     (case py_mod (py_int segment_start) timestamp_interval of
        Inl e \<Rightarrow> Inl e
      | Inr r \<Rightarrow> Inr (r < 5))"

definition append_entry :: "string \<Rightarrow> string \<Rightarrow> job_state \<Rightarrow> job_state" where
  "append_entry timestamp segment_text st =
     st\<lparr>timestamped_chunks := timestamped_chunks st @ [(timestamp, segment_text)]\<rparr>"

text \<open>
  The loop over the segments of one chunk.  The result is the exception that left the
  loop, if any, and the state as the loop left it: the lists and the dict are mutated in
  place, so what was appended before an exception stays.
\<close>

fun process_segments ::
  "string \<Rightarrow> int \<Rightarrow> int \<Rightarrow> seg_run list \<Rightarrow> job_state \<Rightarrow> exn option \<times> job_state" where
  "process_segments sdir interval start_time [] st = (None, st)"
| "process_segments sdir interval start_time (sr # rest) st =
     (let segment_start = seg_start (fst sr) + of_int start_time;
          segment_text = strip (seg_text (fst sr))
      in if segment_text = [] then process_segments sdir interval start_time rest st
         else case format_timestamp segment_start of
           Inl e \<Rightarrow> (Some e, st)
         | Inr timestamp \<Rightarrow>
             (case screenshot_due segment_start interval of
                Inl e \<Rightarrow> (Some e, st)
              | Inr False \<Rightarrow>
                  process_segments sdir interval start_time rest
                    (append_entry timestamp segment_text st)
              | Inr True \<Rightarrow>
                  (let path = screenshot_path sdir segment_start;
                       st1 = st\<lparr>captures := captures st @ [(path, timestamp)]\<rparr>
                   in case extract_screenshot (snd sr) of
                        Inl e \<Rightarrow> (Some e, st1)
                      | Inr ok \<Rightarrow>
                          process_segments sdir interval start_time rest
                            (append_entry timestamp segment_text
                               (if ok then st1\<lparr>screenshots := dict_set timestamp path (screenshots st1)\<rparr>
                                else st1)))))"

text \<open>
  The loop over the chunks, \<open>enumerate(zip(audio_chunks, start_times))\<close>.  The speech
  model's answer for chunk \<open>i\<close> is \<open>tr i\<close>: the exception it raised, or its segments.  An
  exception anywhere in the body is caught and the loop goes on with the next chunk.
\<close>

fun process_chunks ::
  "string \<Rightarrow> int \<Rightarrow> (nat \<Rightarrow> exn + seg_run list) \<Rightarrow> nat \<Rightarrow> rat \<Rightarrow> nat \<Rightarrow> int list
     \<Rightarrow> job_state \<Rightarrow> job_state" where
  "process_chunks sdir interval tr n ppc i [] st = st"
| "process_chunks sdir interval tr n ppc i (start_time # rest) st =
     (let current_progress = 25 + of_nat i * ppc;
          st1 = progress_callback
                  (''Transcribing chunk '' @ str_nat (i + 1) @ ''/'' @ str_nat n @ ''...'')
                  current_progress st
      in case tr i of
           Inl e \<Rightarrow> process_chunks sdir interval tr n ppc (Suc i) rest st1
         | Inr segments \<Rightarrow>
             (case process_segments sdir interval start_time segments st1 of
                (Some e, st2) \<Rightarrow> process_chunks sdir interval tr n ppc (Suc i) rest st2
              | (None, st2) \<Rightarrow>
                  process_chunks sdir interval tr n ppc (Suc i) rest
                    (progress_callback
                       (''Transcribed chunk '' @ str_nat (i + 1) @ ''/'' @ str_nat n)
                       (current_progress + ppc / 2) st2)))"

definition progress_per_chunk :: "nat \<Rightarrow> rat" where
  "progress_per_chunk n = (if n > 0 then 70 / of_nat n else 0)"

text \<open>
  Copying the screenshots to the job's output directory: a failed copy is caught and
  that entry is left out of the returned dict.
\<close>

fun persist_screenshots :: "(string \<Rightarrow> bool) \<Rightarrow> string \<Rightarrow> string dict \<Rightarrow> string dict \<Rightarrow> string dict" where
  "persist_screenshots copy_ok output_dir [] acc = acc"
| "persist_screenshots copy_ok output_dir (kv # rest) acc =
     (let new_path = path_join output_dir (basename (snd kv))
      in persist_screenshots copy_ok output_dir rest
           (if copy_ok (snd kv) then dict_set (fst kv) new_path acc else acc))"

text \<open>
  Everything outside the process that a job meets: the two audio conversions (the
  exception they end in, if any), the splitter's environment, the speech model's answer
  per chunk, the screenshot copies, and (for the worker thread) the two writers.
\<close>

record world =
  extract_audio :: "exn option"
  convert_audio :: "exn option"
  splitter :: split_env
  transcribe :: "nat \<Rightarrow> exn + seg_run list"
  copy_ok :: "string \<Rightarrow> bool"
  temp_dir :: string
  cwd :: string
  txt_write_ok :: bool
  create_pdf :: "exn + bool"

text \<open>
  \<open>process_video\<close>: the state when the function is left (with the progress log), and
  either the exception that left it or the returned pair.
\<close>

definition process_video ::
  "world \<Rightarrow> string \<Rightarrow> int \<Rightarrow> int
     \<Rightarrow> job_state \<times> (exn + (string \<times> string) list \<times> string dict)" where
  "process_video w job_id chunk_duration timestamp_interval =
     (let st0 = progress_callback ''Created temporary directory'' 5
                  (progress_callback ''Starting video processing...'' 0 init_state);
          screenshots_dir = path_join (temp_dir w) ''screenshots''
      in case extract_audio w of
        Some e \<Rightarrow> (st0, Inl e)
      | None \<Rightarrow>
          (let st1 = progress_callback ''Extracted audio from video'' 10 st0
           in case convert_audio w of
             Some e \<Rightarrow> (st1, Inl e)
           | None \<Rightarrow>
               (let st2 = progress_callback ''Converted audio to WAV format'' 15 st1
                in case split_audio_into_chunks (splitter w) (path_join (temp_dir w) ''chunks'')
                          chunk_duration of
                  Inl e \<Rightarrow> (st2, Inl e)
                | Inr (audio_chunks, start_times, num_chunks) \<Rightarrow>
                    (let st3 = progress_callback
                                 (''Split audio into '' @ str_int num_chunks @ '' chunks'') 20 st2;
                         n = length audio_chunks;
                         st4 = process_chunks screenshots_dir timestamp_interval (transcribe w) n
                                 (progress_per_chunk n) 0 (take n start_times) st3;
                         st5 = progress_callback ''Finished transcription'' 90 st4;
                         output_dir = path_join (path_join (cwd w) ''output'') job_id;
                         persistent_screenshots =
                           persist_screenshots (copy_ok w) output_dir (screenshots st5) [];
                         st6 = progress_callback ''Saved screenshots'' 95 st5
                     in (st6, Inr (timestamped_chunks st6, persistent_screenshots))))))"

section \<open>Plain-text output: \<open>save_transcript_to_text\<close>\<close>

definition nl :: char where
  "nl = CHR 0x0A"

text \<open>One entry of the file: \<open>f"[{timestamp}] {text}\n\n"\<close>.\<close>

definition entry :: "string \<times> string \<Rightarrow> string" where
  "entry p = ''['' @ fst p @ ''] '' @ snd p @ [nl, nl]"

definition transcript_text :: "(string \<times> string) list \<Rightarrow> string" where
  "transcript_text chunks = concat (map entry chunks)"

text \<open>
  The whole body runs inside \<open>try\<close>: the function returns \<open>True\<close> with the file
  written, or \<open>False\<close> when creating the directory, opening or writing failed (the
  content of the file is then not determined).
\<close>

definition save_transcript_to_text :: "bool \<Rightarrow> (string \<times> string) list \<Rightarrow> string option \<times> bool" where
  "save_transcript_to_text write_ok chunks =
     (if write_ok then (Some (transcript_text chunks), True) else (None, False))"

text \<open>
  Modelled from the spec: the reader of the text file, which the repository does not
  contain.  The specification describes it as "parsing it back by splitting on
  blank-line-delimited \<open>[timestamp] text\<close> blocks": the content is split at every blank
  line (two consecutive newlines, left to right), empty blocks are dropped, and each block
  must read \<open>[\<close>, the timestamp, \<open>] \<close>, the text.
\<close>

fun split_blank :: "string \<Rightarrow> string \<Rightarrow> string list" where
  "split_blank acc [] = [rev acc]"
| "split_blank acc [c] = [rev (c # acc)]"
| "split_blank acc (c1 # c2 # cs) =
     (if c1 = nl \<and> c2 = nl then rev acc # split_blank [] cs
      else split_blank (c1 # acc) (c2 # cs))"

fun split_label :: "string \<Rightarrow> string \<Rightarrow> (string \<times> string) option" where
  "split_label acc [] = None"
| "split_label acc [c] = None"
| "split_label acc (c1 # c2 # cs) =
     (if c1 = CHR '']'' \<and> c2 = CHR '' '' then Some (rev acc, cs)
      else split_label (c1 # acc) (c2 # cs))"

definition parse_block :: "string \<Rightarrow> (string \<times> string) option" where
  "parse_block b = (case b of [] \<Rightarrow> None
                    | c # cs \<Rightarrow> if c = CHR ''['' then split_label [] cs else None)"

fun parse_blocks :: "string list \<Rightarrow> (string \<times> string) list option" where
  "parse_blocks [] = Some []"
| "parse_blocks (b # bs) =
     (case parse_block b of
        None \<Rightarrow> None
      | Some p \<Rightarrow> (case parse_blocks bs of None \<Rightarrow> None | Some ps \<Rightarrow> Some (p # ps)))"

definition parse_transcript :: "string \<Rightarrow> (string \<times> string) list option" where
  "parse_transcript content = parse_blocks (filter (\<lambda>b. b \<noteq> []) (split_blank [] content))"

section \<open>The job ledger and the worker thread: \<open>app.process_video_thread\<close>\<close>

text \<open>
  The ledger record of a job.  The status is free text in the source; \<open>Failed e\<close> stands
  for the text \<open>f"Failed: {str(e)}"\<close>.  The record is kept in memory here: reading and
  writing the job's JSON file are taken to succeed, and the wall-clock fields
  (\<open>created_at\<close>, \<open>updated_at\<close>, \<open>completed_at\<close>) are reduced to the flag \<open>completed\<close>.
\<close>

datatype job_status = Label string | Failed exn

record job_record =
  status :: job_status
  progress :: rat
  error :: "exn option"
  completed :: bool
  txt_path :: "string option"
  pdf_path :: "string option"
  num_screenshots :: "nat option"
  num_segments :: "nat option"

definition create_new_job :: job_record where
  "create_new_job = \<lparr>status = Label ''Created'', progress = 0, error = None, completed = False,
                      txt_path = None, pdf_path = None, num_screenshots = None,
                      num_segments = None\<rparr>"

definition update_job_progress :: "string \<Rightarrow> rat \<Rightarrow> job_record \<Rightarrow> job_record" where
  "update_job_progress text p r = r\<lparr>status := Label text, progress := p\<rparr>"

text \<open>The successive records the ledger holds while a list of progress calls is made.\<close>

fun ledger_writes :: "job_record \<Rightarrow> (string \<times> rat) list \<Rightarrow> job_record list" where
  "ledger_writes r [] = []"
| "ledger_writes r (ev # evs) =
     (let r' = update_job_progress (fst ev) (snd ev) r in r' # ledger_writes r' evs)"

text \<open>
  The worker: every record the ledger holds, in order, from the first update to the
  terminal one.  An exception out of \<open>process_video\<close> or out of the PDF writer is caught at
  the top level and recorded as failure.
\<close>

definition process_video_thread ::
  "world \<Rightarrow> string \<Rightarrow> int \<Rightarrow> int \<Rightarrow> job_record \<Rightarrow> job_record list" where
  "process_video_thread w job_id chunk_duration timestamp_interval r0 =
     (let run = process_video w job_id chunk_duration timestamp_interval;
          h1 = ledger_writes r0 ((''Starting processing...'', 0) # progress_log (fst run));
          r1 = last (r0 # h1)
      in case snd run of
        Inl e \<Rightarrow> h1 @ [r1\<lparr>status := Failed e, error := Some e\<rparr>]
      | Inr (chunks, shots) \<Rightarrow>
          (let job_dir = path_join ''output'' job_id;
               r2 = update_job_progress ''Saving text transcript...'' 95 r1;
               saved = save_transcript_to_text (txt_write_ok w) chunks;
               r3 = update_job_progress ''Creating PDF with screenshots...'' 98 r2
           in case create_pdf w of
             Inl e \<Rightarrow> h1 @ [r2, r3, r3\<lparr>status := Failed e, error := Some e\<rparr>]
           | Inr made \<Rightarrow>
               h1 @ [r2, r3,
                     r3\<lparr>status := Label ''Completed'', progress := 100, completed := True,
                        txt_path := Some (path_join job_dir ''transcript.txt''),
                        pdf_path := Some (path_join job_dir ''transcript.pdf''),
                        num_screenshots := Some (length shots),
                        num_segments := Some (length chunks)\<rparr>]))"

section \<open>The command-line pipeline: \<open>video_to_text.main\<close>\<close>

text \<open>
  What one call of the text-generation service ends in: an exception (service
  unreachable, model unavailable), or a response in which the key \<open>response\<close> may be
  missing.
\<close>

datatype generate_outcome = GenerateRaises | Response "string option"

definition ollama_prompt :: "string \<Rightarrow> string option \<Rightarrow> string" where
  "ollama_prompt transcription pdf_context =
     ''I have a transcription of a medical lecture about the hypothalamus and pituitary gland that may contain inaccuracies. ''
     @ ''Please correct any errors, fill in any gaps where words don't make sense, and ensure all medical terminology is accurate. ''
     @ (case pdf_context of
          None \<Rightarrow> []
        | Some ctx \<Rightarrow>
            if ctx \<noteq> [] \<and> strip ctx \<noteq> []
            then ''Use this reference material to help with technical terms and context:'' @ [nl]
                   @ take 2000 ctx @ [nl, nl]
            else [])
     @ ''Original transcription:'' @ [nl, nl] @ transcription @ [nl, nl]
     @ ''Please output only the improved transcription without explanations or notes.''"

text \<open>
  \<open>improve_transcription_with_ollama\<close>: an empty transcription raises before the
  \<open>try\<close>; inside it, every exception (the call's, or the missing key's) is caught and
  the original transcription is returned.
\<close>

definition improve_transcription_with_ollama ::
  "(string \<Rightarrow> generate_outcome) \<Rightarrow> string \<Rightarrow> string option \<Rightarrow> exn + string" where
  "improve_transcription_with_ollama generate transcription pdf_context =
     (if transcription = [] then Inl ValueError
      else case generate (ollama_prompt transcription pdf_context) of
        GenerateRaises \<Rightarrow> Inr transcription
      | Response None \<Rightarrow> Inr transcription
      | Response (Some improved) \<Rightarrow> Inr improved)"

text \<open>
  The use of the stage in \<open>main\<close>, for a segment and for a chunk without segments alike:
  skipped on request, and wrapped in a \<open>try\<close> that keeps the text at hand on any exception.
\<close>

definition improve_step ::
  "bool \<Rightarrow> (string \<Rightarrow> generate_outcome) \<Rightarrow> string option \<Rightarrow> string \<Rightarrow> string" where
  "improve_step skip_ollama generate pdf_context text =
     (if skip_ollama then text
      else case improve_transcription_with_ollama generate text pdf_context of
        Inl e \<Rightarrow> text
      | Inr improved \<Rightarrow> improved)"

text \<open>The connection test before the loop: a failing \<open>ollama.list()\<close> turns the stage off.\<close>

definition connection_test :: "bool \<Rightarrow> bool \<Rightarrow> bool" where
  "connection_test skip_ollama list_ok = (if \<not> skip_ollama \<and> \<not> list_ok then True else skip_ollama)"

record cli_env =
  grab :: ffmpeg_outcome
  generate :: "string \<Rightarrow> generate_outcome"

type_synonym cli_seg_run = "segment \<times> cli_env"

record cli_state =
  cli_chunks :: "(string \<times> string) list"
  cli_screenshots :: "string dict"
  cli_captures :: "(string \<times> string) list"
  cli_file :: string

definition cli_init :: cli_state where
  "cli_init = \<lparr>cli_chunks = [], cli_screenshots = [], cli_captures = [], cli_file = []\<rparr>"

definition cli_append :: "string \<Rightarrow> string \<Rightarrow> cli_state \<Rightarrow> cli_state" where
  "cli_append timestamp text st =
     st\<lparr>cli_chunks := cli_chunks st @ [(timestamp, text)],
        cli_file := cli_file st @ entry (timestamp, text)\<rparr>"

fun cli_process_segments ::
  "bool \<Rightarrow> string option \<Rightarrow> string \<Rightarrow> int \<Rightarrow> int \<Rightarrow> cli_seg_run list \<Rightarrow> cli_state
     \<Rightarrow> exn option \<times> cli_state" where
  "cli_process_segments skip ctx sdir interval start_time [] st = (None, st)"
| "cli_process_segments skip ctx sdir interval start_time (sr # rest) st =
     (let segment_start = seg_start (fst sr) + of_int start_time;
          segment_text = strip (seg_text (fst sr))
      in if segment_text = [] then cli_process_segments skip ctx sdir interval start_time rest st
         else case format_timestamp segment_start of
           Inl e \<Rightarrow> (Some e, st)
         | Inr timestamp \<Rightarrow>
             (case screenshot_due segment_start interval of
                Inl e \<Rightarrow> (Some e, st)
              | Inr False \<Rightarrow>
                  cli_process_segments skip ctx sdir interval start_time rest
                    (cli_append timestamp (improve_step skip (generate (snd sr)) ctx segment_text) st)
              | Inr True \<Rightarrow>
                  (let path = screenshot_path sdir segment_start;
                       st1 = st\<lparr>cli_captures := cli_captures st @ [(path, timestamp)]\<rparr>
                   in case cli_extract_screenshot (grab (snd sr)) of
                        Inl e \<Rightarrow> (Some e, st1)
                      | Inr ok \<Rightarrow>
                          cli_process_segments skip ctx sdir interval start_time rest
                            (cli_append timestamp
                               (improve_step skip (generate (snd sr)) ctx segment_text)
                               (if ok
                                then st1\<lparr>cli_screenshots := dict_set timestamp path (cli_screenshots st1)\<rparr>
                                else st1)))))"

text \<open>
  A chunk without segments takes the fallback branch: one entry at the chunk's start with
  the whole raw transcription, and a frame grab that the sampling rule does not guard.
\<close>

definition cli_fallback ::
  "bool \<Rightarrow> string option \<Rightarrow> string \<Rightarrow> int \<Rightarrow> string \<Rightarrow> cli_env \<Rightarrow> cli_state
     \<Rightarrow> exn option \<times> cli_state" where
  "cli_fallback skip ctx sdir start_time raw_transcription env st =
     (case format_timestamp (of_int start_time) of
        Inl e \<Rightarrow> (Some e, st)
      | Inr timestamp \<Rightarrow>
          (let transcription = improve_step skip (generate env) ctx raw_transcription;
               path = screenshot_path sdir (of_int start_time);
               st1 = st\<lparr>cli_captures := cli_captures st @ [(path, timestamp)]\<rparr>
           in case cli_extract_screenshot (grab env) of
                Inl e \<Rightarrow> (Some e, st1)
              | Inr ok \<Rightarrow>
                  (None,
                   cli_append timestamp transcription
                     (if ok
                      then st1\<lparr>cli_screenshots := dict_set timestamp path (cli_screenshots st1)\<rparr>
                      else st1))))"

text \<open>
  One chunk of a command-line run: its start time, the speech model's answer (an
  exception, or the raw text with the segments), and the environment of the fallback
  branch.
\<close>

record cli_chunk =
  chunk_start :: int
  whisper :: "exn + string \<times> cli_seg_run list"
  fallback_env :: cli_env

fun cli_process_chunks ::
  "bool \<Rightarrow> string option \<Rightarrow> string \<Rightarrow> int \<Rightarrow> cli_chunk list \<Rightarrow> cli_state \<Rightarrow> cli_state" where
  "cli_process_chunks skip ctx sdir interval [] st = st"
| "cli_process_chunks skip ctx sdir interval (c # rest) st =
     (case whisper c of
        Inl e \<Rightarrow> cli_process_chunks skip ctx sdir interval rest st
      | Inr res \<Rightarrow>
          cli_process_chunks skip ctx sdir interval rest
            (snd (if snd res \<noteq> []
                  then cli_process_segments skip ctx sdir interval (chunk_start c) (snd res) st
                  else cli_fallback skip ctx sdir (chunk_start c) (fst res) (fallback_env c) st)))"

section \<open>Derived notions and concrete runs\<close>

text \<open>A 125-second audio file whose probe and carving invocations all succeed.\<close>

definition env125 :: split_env where
  "env125 = \<lparr>audio_exists = True, probe = Inr 125, carve = (\<lambda>i. True)\<rparr>"

text \<open>
  A command-line chunk of two segments at 0.5 s and 7 s; the frame grab at the first one
  exits with a non-zero status.
\<close>

definition failing_grab_chunk :: "cli_seg_run list" where
  "failing_grab_chunk =
     [(\<lparr>seg_start = 1 / 2, seg_text = ''first''\<rparr>,
       \<lparr>grab = ExitNonZero, generate = (\<lambda>p. GenerateRaises)\<rparr>),
      (\<lparr>seg_start = 7, seg_text = ''second''\<rparr>,
       \<lparr>grab = FrameWritten, generate = (\<lambda>p. GenerateRaises)\<rparr>)]"

text \<open>
  A job on 2100 seconds of audio with 300-second chunks: eight chunks, each transcribed
  without error (no speech recognised), every external step succeeding.
\<close>

definition world8 :: world where
  "world8 = \<lparr>extract_audio = None, convert_audio = None,
              splitter = \<lparr>audio_exists = True, probe = Inr 2100, carve = (\<lambda>i. True)\<rparr>,
              transcribe = (\<lambda>i. Inr []), copy_ok = (\<lambda>p. True),
              temp_dir = ''/tmp/job'', cwd = ''/app'',
              txt_write_ok = True, create_pdf = Inr True\<rparr>"

text \<open>
  A job on 10 seconds of audio (one chunk) in which the speech model reports two segments
  within the first second, at 0.2 s and 0.7 s; every frame grab succeeds.
\<close>

definition two_hits :: "seg_run list" where
  "two_hits =
     [(\<lparr>seg_start = 1 / 5, seg_text = ''hello''\<rparr>, \<lparr>video_exists = True, ffmpeg = FrameWritten\<rparr>),
      (\<lparr>seg_start = 7 / 10, seg_text = ''again''\<rparr>, \<lparr>video_exists = True, ffmpeg = FrameWritten\<rparr>)]"

definition world_two_hits :: world where
  "world_two_hits = \<lparr>extract_audio = None, convert_audio = None,
              splitter = \<lparr>audio_exists = True, probe = Inr 10, carve = (\<lambda>i. True)\<rparr>,
              transcribe = (\<lambda>i. Inr two_hits), copy_ok = (\<lambda>p. True),
              temp_dir = ''/tmp/job'', cwd = ''/app'',
              txt_write_ok = True, create_pdf = Inr True\<rparr>"

text \<open>The invariant of the run: every key of the screenshots dict labels a transcript entry,
  and no key occurs twice.\<close>

definition shots_ok :: "job_state \<Rightarrow> bool" where
  "shots_ok st = (fst ` set (screenshots st) \<subseteq> fst ` set (timestamped_chunks st)
                   \<and> distinct (map fst (screenshots st)))"

text \<open>
  What the segment loop appends to the transcript for the segments of one chunk, and what
  chunk \<open>j\<close> of a job contributes: nothing when its transcription raised.
\<close>

definition chunk_entries :: "string \<Rightarrow> int \<Rightarrow> int \<Rightarrow> seg_run list \<Rightarrow> (string \<times> string) list" where
  "chunk_entries sdir interval start_time segs =
     timestamped_chunks (snd (process_segments sdir interval start_time segs init_state))"

definition chunk_contribution ::
  "world \<Rightarrow> int \<Rightarrow> int list \<Rightarrow> nat \<Rightarrow> (string \<times> string) list" where
  "chunk_contribution w interval starts j =
     (case transcribe w j of
        Inl e \<Rightarrow> []
      | Inr segs \<Rightarrow> chunk_entries (path_join (temp_dir w) ''screenshots'') interval (starts ! j) segs)"

text \<open>
  A job on 125 seconds of audio with 60-second chunks: three chunks; the transcription of
  the second one raises, the first and the third yield one segment with text each (the
  first also one with blank text).
\<close>

definition world3 :: world where
  "world3 = \<lparr>extract_audio = None, convert_audio = None,
              splitter = \<lparr>audio_exists = True, probe = Inr 125, carve = (\<lambda>i. True)\<rparr>,
              transcribe = (\<lambda>i. if i = 1 then Inl RuntimeError
                                 else if i = 0
                                 then Inr [(\<lparr>seg_start = 1 / 5, seg_text = ''hello''\<rparr>,
                                            \<lparr>video_exists = True, ffmpeg = FrameWritten\<rparr>),
                                           (\<lparr>seg_start = 7, seg_text = '' ''\<rparr>,
                                            \<lparr>video_exists = True, ffmpeg = FrameWritten\<rparr>)]
                                 else Inr [(\<lparr>seg_start = 7 / 10, seg_text = ''again''\<rparr>,
                                            \<lparr>video_exists = True, ffmpeg = ExitNonZero\<rparr>)]),
              copy_ok = (\<lambda>p. True),
              temp_dir = ''/tmp/job'', cwd = ''/app'',
              txt_write_ok = True, create_pdf = Inr True\<rparr>"

text \<open>
  The text-generation service fails on every request of an environment: each call raises
  or returns a response without the key \<open>response\<close>.
\<close>

definition service_down :: "cli_env \<Rightarrow> bool" where
  "service_down env = (\<forall>p. generate env p = GenerateRaises \<or> generate env p = Response None)"

text \<open>
  A command-line run of two chunks with the service unreachable: the first chunk has a
  segment at 0.2 s, the second has no segments and the raw text \<open>bye\<close>.
\<close>

definition unreachable :: cli_env where
  "unreachable = \<lparr>grab = FrameWritten, generate = (\<lambda>p. GenerateRaises)\<rparr>"

definition cli_two_chunks :: "cli_chunk list" where
  "cli_two_chunks =
     [\<lparr>chunk_start = 0,
       whisper = Inr ('' hello'', [(\<lparr>seg_start = 1 / 5, seg_text = '' hello''\<rparr>, unreachable)]),
       fallback_env = unreachable\<rparr>,
      \<lparr>chunk_start = 60, whisper = Inr (''bye'', []), fallback_env = unreachable\<rparr>]"

text \<open>
  A pair that the text format can carry: no \<open>]\<close> and no newline in the timestamp, no
  newline in the text.
\<close>

definition plain :: "string \<times> string \<Rightarrow> bool" where
  "plain p = (CHR '']'' \<notin> set (fst p) \<and> nl \<notin> set (fst p) \<and> nl \<notin> set (snd p))"

section \<open>Timestamp labels: proofs\<close>

lemma str_nat_lt10: "n < 10 \<Longrightarrow> str_nat n = [digit_char n]"
  by (subst str_nat.simps) simp
lemma str_nat_ge10: "10 \<le> n \<Longrightarrow> str_nat n = str_nat (n div 10) @ [digit_char (n mod 10)]"
  by (subst str_nat.simps) simp
lemmas render_simps = str_nat_lt10 str_nat_ge10 digit_char_def zpad_def str_int_def

lemma py_int_nonneg: "0 \<le> x \<Longrightarrow> py_int x = \<lfloor>x\<rfloor>"
  by (simp add: py_int_def)

lemma timedelta_str_day:
  assumes "0 \<le> n" "n < 86400"
  shows "timedelta_str n = Inr (hms n)"
proof -
  have d: "n div 86400 = 0" using assms by simp
  have m: "n mod 86400 = n" using assms by simp
  have h: "nat n div 60 div 60 = nat n div 3600"
    by (simp add: div_mult2_eq)
  show ?thesis
    unfolding timedelta_str_def hms_def Let_def d m h by simp
qed

text \<open>
  Below 24 hours the label is the \<open>H:MM:SS\<close> rendering of the whole seconds.
\<close>

lemma format_timestamp_under_day:
  assumes "0 \<le> t" and "t < 86400"
  shows "format_timestamp t = Inr (hms \<lfloor>t\<rfloor>)"
proof -
  have "0 \<le> \<lfloor>t\<rfloor>" "\<lfloor>t\<rfloor> < 86400" using assms by (simp_all add: floor_less_iff)
  then show ?thesis
    using assms(1) by (simp add: format_timestamp_def py_int_nonneg timedelta_str_day)
qed

text \<open>
  Claim C5 at its failing input.  The label of an offset is meant to be the
  \<open>H:MM:SS\<close> rendering of its whole seconds (the docstring of \<open>format_timestamp\<close> says
  "Convert seconds to HH:MM:SS format"), and an offset of 63 seconds does give \<open>0:01:03\<close>.
  At 24 hours the function returns \<open>1 day, 0:00:00\<close>, while the \<open>H:MM:SS\<close> rendering of
  86400 seconds is \<open>24:00:00\<close>.
\<close>

theorem format_timestamp_one_day:
  "format_timestamp 63 = Inr ''0:01:03''
   \<and> format_timestamp 86400 = Inr ''1 day, 0:00:00''
   \<and> hms \<lfloor>86400 :: rat\<rfloor> = ''24:00:00''
   \<and> format_timestamp 86400 \<noteq> Inr (hms \<lfloor>86400 :: rat\<rfloor>)"
  by (simp add: format_timestamp_def py_int_def timedelta_str_def Let_def hms_def render_simps)

section \<open>Chunk splitter: proofs\<close>

lemma carve_chunks_all_ok:
  "\<forall>i \<in> set idx. ok i \<Longrightarrow>
   carve_chunks ok chunk_dir d idx acc =
     Inr (fst acc @ map (chunk_path chunk_dir) idx, snd acc @ map (\<lambda>i. int i * d) idx)"
  by (induction idx arbitrary: acc) simp_all

lemma num_chunks_of_floor:
  "0 < d \<Longrightarrow> 0 \<le> l \<Longrightarrow> num_chunks_of l d = Inr (\<lfloor>l / of_int d\<rfloor> + 1)"
  by (simp add: num_chunks_of_def py_int_def)

lemma floor_exact_multiple:
  fixes d k :: int
  assumes "0 < d"
  shows "\<lfloor>(of_int (k * d) :: rat) / of_int d\<rfloor> = k"
  using assms by simp

lemma split_count_parts:
  assumes "0 < d" and "0 \<le> l"
    and "audio_exists env" and "probe env = Inr l"
    and "\<forall>i. int i \<le> \<lfloor>l / of_int d\<rfloor> \<longrightarrow> carve env i"
  shows "split_audio_into_chunks env chunk_dir d =
           Inr (map (chunk_path chunk_dir) [0..<nat (\<lfloor>l / of_int d\<rfloor> + 1)],
                map (\<lambda>i. int i * d) [0..<nat (\<lfloor>l / of_int d\<rfloor> + 1)],
                \<lfloor>l / of_int d\<rfloor> + 1)"
    and "cli_split_audio_into_chunks env chunk_dir d =
           Inr (map (chunk_path chunk_dir) [0..<nat (\<lfloor>l / of_int d\<rfloor> + 1)],
                map (\<lambda>i. int i * d) [0..<nat (\<lfloor>l / of_int d\<rfloor> + 1)])"
    and "int (length (map (\<lambda>i. int i * d) [0..<nat (\<lfloor>l / of_int d\<rfloor> + 1)])) = \<lfloor>l / of_int d\<rfloor> + 1"
    and "l = of_int (k * d) \<Longrightarrow>
           int (length (map (\<lambda>i. int i * d) [0..<nat (\<lfloor>l / of_int d\<rfloor> + 1)])) = k + 1
         \<and> last (map (\<lambda>i. int i * d) [0..<nat (\<lfloor>l / of_int d\<rfloor> + 1)]) = k * d"
proof -
  define q where "q = \<lfloor>l / of_int d\<rfloor>"
  define n where "n = nat (q + 1)"
  have q0: "0 \<le> q" using assms(1,2) by (simp add: q_def)
  have n_eq: "int n = q + 1" using q0 by (simp add: n_def)
  have ok: "\<forall>i \<in> set [0..<n]. carve env i"
    using assms(5) n_eq by (auto simp: q_def)
  let ?files = "map (chunk_path chunk_dir) [0..<n]"
  let ?ts = "map (\<lambda>i. int i * d) [0..<n]"
  have carve: "carve_chunks (carve env) chunk_dir d [0..<n] ([], []) = Inr (?files, ?ts)"
    using carve_chunks_all_ok [OF ok, of chunk_dir d "([], [])"] by simp
  have nc: "num_chunks_of l d = Inr (q + 1)"
    using num_chunks_of_floor [OF assms(1,2)] by (simp add: q_def)
  show "split_audio_into_chunks env chunk_dir d =
           Inr (map (chunk_path chunk_dir) [0..<nat (\<lfloor>l / of_int d\<rfloor> + 1)],
                map (\<lambda>i. int i * d) [0..<nat (\<lfloor>l / of_int d\<rfloor> + 1)],
                \<lfloor>l / of_int d\<rfloor> + 1)"
    unfolding q_def [symmetric] n_def [symmetric]
    using assms(3,4) nc carve by (simp add: split_audio_into_chunks_def n_def)
  show "cli_split_audio_into_chunks env chunk_dir d =
           Inr (map (chunk_path chunk_dir) [0..<nat (\<lfloor>l / of_int d\<rfloor> + 1)],
                map (\<lambda>i. int i * d) [0..<nat (\<lfloor>l / of_int d\<rfloor> + 1)])"
    unfolding q_def [symmetric] n_def [symmetric]
    using assms(4) nc carve by (simp add: cli_split_audio_into_chunks_def n_def)
  show "int (length (map (\<lambda>i. int i * d) [0..<nat (\<lfloor>l / of_int d\<rfloor> + 1)])) = \<lfloor>l / of_int d\<rfloor> + 1"
    unfolding q_def [symmetric] n_def [symmetric] using n_eq by simp
  show "int (length (map (\<lambda>i. int i * d) [0..<nat (\<lfloor>l / of_int d\<rfloor> + 1)])) = k + 1
         \<and> last (map (\<lambda>i. int i * d) [0..<nat (\<lfloor>l / of_int d\<rfloor> + 1)]) = k * d"
    if l: "l = of_int (k * d)"
  proof -
    have qk: "q = k" unfolding q_def l using floor_exact_multiple [OF assms(1)] by simp
    have npos: "n \<noteq> 0" using n_eq q0 by auto
    then have ne: "[0..<n] \<noteq> []" by simp
    have "last ?ts = int (last [0..<n]) * d" using ne by (simp add: last_map)
    also have "last [0..<n] = n - 1" using npos by (cases n) simp_all
    also have "int (n - 1) = k" using n_eq qk npos by simp
    finally have "last ?ts = k * d" .
    moreover have "int (length ?ts) = k + 1" using n_eq qk by simp
    ultimately show ?thesis unfolding q_def [symmetric] n_def [symmetric] by simp
  qed
qed

text \<open>
  Claim C1.  For a positive chunk duration \<open>d\<close> and a non-negative duration \<open>l\<close> reported
  by the probe, when every carving invocation succeeds, both splitters return exactly
  \<open>floor (l / d) + 1\<close> chunks, the start offset of chunk \<open>i\<close> is \<open>i * d\<close>, and when \<open>l\<close> is
  the exact multiple \<open>k * d\<close> there are \<open>k + 1\<close> chunks, the last one starting at \<open>k * d\<close>,
  the end of the audio.
\<close>

theorem split_audio_into_chunks_count:
  assumes "0 < d" and "0 \<le> l"
    and "audio_exists env" and "probe env = Inr l"
    and "\<forall>i. int i \<le> \<lfloor>l / of_int d\<rfloor> \<longrightarrow> carve env i"
  shows "split_audio_into_chunks env chunk_dir d =
           Inr (map (chunk_path chunk_dir) [0..<nat (\<lfloor>l / of_int d\<rfloor> + 1)],
                map (\<lambda>i. int i * d) [0..<nat (\<lfloor>l / of_int d\<rfloor> + 1)],
                \<lfloor>l / of_int d\<rfloor> + 1)
       \<and> cli_split_audio_into_chunks env chunk_dir d =
           Inr (map (chunk_path chunk_dir) [0..<nat (\<lfloor>l / of_int d\<rfloor> + 1)],
                map (\<lambda>i. int i * d) [0..<nat (\<lfloor>l / of_int d\<rfloor> + 1)])
       \<and> int (length (map (\<lambda>i. int i * d) [0..<nat (\<lfloor>l / of_int d\<rfloor> + 1)])) = \<lfloor>l / of_int d\<rfloor> + 1
       \<and> (l = of_int (k * d) \<longrightarrow>
           int (length (map (\<lambda>i. int i * d) [0..<nat (\<lfloor>l / of_int d\<rfloor> + 1)])) = k + 1
         \<and> last (map (\<lambda>i. int i * d) [0..<nat (\<lfloor>l / of_int d\<rfloor> + 1)]) = k * d)"
  using split_count_parts [OF assms] by blast

lemma floor_125_60: "\<lfloor>125 / of_int 60 :: rat\<rfloor> = 2" by (rule floor_unique) simp_all

lemma upt_3: "[0..<nat 3] = [0, 1, 2]"
  by (simp add: upt_rec)

theorem split_audio_into_chunks_count_witness:
  "(0::int) < 60 \<and> (0::rat) \<le> 125 \<and> audio_exists env125 \<and> probe env125 = Inr 125
   \<and> split_audio_into_chunks env125 ''chunks'' 60 =
       Inr ([chunk_path ''chunks'' 0, chunk_path ''chunks'' 1, chunk_path ''chunks'' 2], [0, 60, 120], 3)"
proof -
  have a: "audio_exists env125" "probe env125 = Inr 125"
    "\<forall>i. int i \<le> \<lfloor>125 / of_int 60 :: rat\<rfloor> \<longrightarrow> carve env125 i"
    by (simp_all add: env125_def)
  have "split_audio_into_chunks env125 ''chunks'' 60 =
           Inr (map (chunk_path ''chunks'') [0..<nat 3], map (\<lambda>i. int i * 60) [0..<nat 3], 3)"
    using split_audio_into_chunks_count [of 60 125 env125 "''chunks''", OF _ _ a]
    unfolding floor_125_60 by simp
  then show ?thesis using a unfolding upt_3 by simp
qed

section \<open>Frame capture: proofs\<close>

lemma floor_half: "\<lfloor>1 / 2 :: rat\<rfloor> = 0" by (rule floor_unique) simp_all

lemma format_timestamp_half: "format_timestamp (1 / 2) = Inr ''0:00:00''"
  by (simp add: format_timestamp_def py_int_def floor_half timedelta_str_def Let_def render_simps)

lemma screenshot_due_half: "screenshot_due (1 / 2) 30 = Inr True"
  by (simp add: screenshot_due_def py_mod_def py_int_def floor_half)

text \<open>
  Claim C8 at its failing input.  On a non-zero exit of the frame-grab invocation the
  extraction function of \<open>modules/utils.py\<close> returns \<open>False\<close>, while the one of
  \<open>video_to_text.py\<close> raises \<open>CalledProcessError\<close>; in the command-line loop the exception
  leaves the chunk, so the segment at hand and the segments after it get no transcript
  entry.
\<close>

theorem cli_extract_screenshot_raises:
  "extract_screenshot \<lparr>video_exists = True, ffmpeg = ExitNonZero\<rparr> = Inr False
   \<and> extract_screenshot \<lparr>video_exists = True, ffmpeg = NoOutputFile\<rparr> = Inr False
   \<and> extract_screenshot \<lparr>video_exists = True, ffmpeg = EmptyOutputFile\<rparr> = Inr False
   \<and> cli_extract_screenshot NoOutputFile = Inr False
   \<and> cli_extract_screenshot EmptyOutputFile = Inr False
   \<and> cli_extract_screenshot ExitNonZero = Inl CalledProcessError
   \<and> fst (cli_process_segments True None ''shots'' 30 0 failing_grab_chunk cli_init)
       = Some CalledProcessError
   \<and> cli_chunks (snd (cli_process_segments True None ''shots'' 30 0 failing_grab_chunk cli_init)) = []"
proof -
  have s: "strip ''first'' = ''first''" by (simp add: strip_def py_isspace_def)
  have "cli_process_segments True None ''shots'' 30 0 failing_grab_chunk cli_init
        = (Some CalledProcessError,
           cli_init\<lparr>cli_captures := [(screenshot_path ''shots'' (1 / 2), ''0:00:00'')]\<rparr>)"
    by (simp add: failing_grab_chunk_def s format_timestamp_half screenshot_due_half
          cli_extract_screenshot_def cli_init_def)
  then show ?thesis
    by (simp add: extract_screenshot_def cli_extract_screenshot_def cli_init_def)
qed

section \<open>Screenshot sampling: proofs\<close>









section \<open>Progress: proofs\<close>

lemma process_segments_nil_state: "process_segments sdir interval start_time [] st = (None, st)"
  by simp

lemma process_chunks_silent_progress:
  "\<forall>i. tr i = Inr [] \<Longrightarrow>
   map snd (progress_log (process_chunks sdir interval tr n ppc i starts st)) =
     map snd (progress_log st)
       @ concat (map (\<lambda>j. [25 + of_nat j * ppc, 25 + of_nat j * ppc + ppc / 2]) [i..<i + length starts])"
proof (induction starts arbitrary: i st)
  case Nil
  then show ?case by simp
next
  case (Cons a starts)
  have u: "[i..<i + length (a # starts)] = i # [Suc i..<Suc i + length starts]"
    by (simp add: upt_rec)
  show ?case
    using Cons.prems Cons.IH [OF Cons.prems] unfolding u
    by (simp add: Let_def progress_callback_def)
qed

lemma process_chunks_silent_state:
  "\<forall>i. tr i = Inr [] \<Longrightarrow>
   timestamped_chunks (process_chunks sdir interval tr n ppc i starts st) = timestamped_chunks st
   \<and> screenshots (process_chunks sdir interval tr n ppc i starts st) = screenshots st"
proof (induction starts arbitrary: i st)
  case Nil
  then show ?case by simp
next
  case (Cons a starts)
  show ?case
    using Cons.prems Cons.IH [OF Cons.prems]
    by (simp add: Let_def progress_callback_def)
qed

lemma ledger_writes_progress: "map progress (ledger_writes r evs) = map snd evs"
  by (induction evs arbitrary: r) (simp_all add: Let_def update_job_progress_def)

lemma floor_2100_300: "\<lfloor>2100 / of_int 300 :: rat\<rfloor> = 7" by (rule floor_unique) simp_all

lemma world8_split:
  "split_audio_into_chunks (splitter world8) dir 300 =
     Inr (map (chunk_path dir) [0..<8], map (\<lambda>i. int i * 300) [0..<8], 8)"
proof -
  have "\<forall>i. int i \<le> \<lfloor>2100 / of_int 300 :: rat\<rfloor> \<longrightarrow> carve (splitter world8) i"
    by (simp add: world8_def)
  from split_count_parts(1) [of 300 2100 "splitter world8" dir, OF _ _ _ _ this]
  show ?thesis unfolding floor_2100_300 by (simp add: world8_def)
qed

lemma world8_progress_log:
  "map snd (progress_log (fst (process_video world8 ''job'' 300 30))) =
     [0, 5, 10, 15, 20, 25, 235 / 8, 135 / 4, 305 / 8, 85 / 2, 375 / 8, 205 / 4,
      445 / 8, 60, 515 / 8, 275 / 4, 585 / 8, 155 / 2, 655 / 8, 345 / 4,
      725 / 8, 90, 95]"
proof -
  have tr: "\<forall>i. transcribe world8 i = Inr []" by (simp add: world8_def)
  have ea: "extract_audio world8 = None" "convert_audio world8 = None" by (simp_all add: world8_def)
  have u8: "[0..<8] = [0, 1, 2, 3, 4, 5, 6, 7::nat]" by (simp add: upt_rec)
  show ?thesis
    unfolding process_video_def Let_def ea world8_split
    by (simp add: process_chunks_silent_progress [OF tr] progress_callback_def init_state_def
          progress_per_chunk_def u8 del: process_chunks.simps)
qed

lemma world8_result: "snd (process_video world8 ''job'' 300 30) = Inr ([], [])"
proof -
  have tr: "\<forall>i. transcribe world8 i = Inr []" by (simp add: world8_def)
  have ea: "extract_audio world8 = None" "convert_audio world8 = None" by (simp_all add: world8_def)
  show ?thesis
    unfolding process_video_def Let_def ea world8_split
    by (simp add: process_chunks_silent_state [OF tr] progress_callback_def init_state_def
          del: process_chunks.simps)
qed

text \<open>
  Claim C2 at its failing input.  In a job of eight chunks that all transcribe without
  error, the ledger's progress goes 0, 0, 5, 10, 15, 20, 25, ..., 86.25, 90.625 and then
  back to 90 at "Finished transcription": the values written are not non-decreasing.
\<close>

theorem progress_drops_with_eight_chunks:
  "map progress (process_video_thread world8 ''job'' 300 30 create_new_job) =
     [0, 0, 5, 10, 15, 20, 25, 235 / 8, 135 / 4, 305 / 8, 85 / 2, 375 / 8, 205 / 4,
      445 / 8, 60, 515 / 8, 275 / 4, 585 / 8, 155 / 2, 655 / 8, 345 / 4,
      725 / 8, 90, 95, 95, 98, 100]
   \<and> progress (process_video_thread world8 ''job'' 300 30 create_new_job ! 21) = 725 / 8
   \<and> progress (process_video_thread world8 ''job'' 300 30 create_new_job ! 22) = 90
   \<and> \<not> sorted (map progress (process_video_thread world8 ''job'' 300 30 create_new_job))"
proof -
  let ?h = "process_video_thread world8 ''job'' 300 30 create_new_job"
  let ?evs = "(''Starting processing...'', 0) # progress_log (fst (process_video world8 ''job'' 300 30))"
  have pdf: "create_pdf world8 = Inr True" by (simp add: world8_def)
  have m: "map progress ?h =
     [0, 0, 5, 10, 15, 20, 25, 235 / 8, 135 / 4, 305 / 8, 85 / 2, 375 / 8, 205 / 4,
      445 / 8, 60, 515 / 8, 275 / 4, 585 / 8, 155 / 2, 655 / 8, 345 / 4,
      725 / 8, 90, 95, 95, 98, 100]"
    unfolding process_video_thread_def Let_def world8_result pdf
    by (simp add: ledger_writes_progress world8_progress_log update_job_progress_def
          del: ledger_writes.simps)
  have len: "length ?h = 27" using arg_cong [OF m, of length] by simp
  have n21: "progress (?h ! 21) = map progress ?h ! 21" by (rule nth_map [symmetric]) (simp add: len)
  have n22: "progress (?h ! 22) = map progress ?h ! 22" by (rule nth_map [symmetric]) (simp add: len)
  show ?thesis unfolding n21 n22 unfolding m by simp
qed

section \<open>Screenshots and transcript entries: proofs\<close>

lemma keys_dict_set: "fst ` set (dict_set k v d) = insert k (fst ` set d)"
  by (induction d) auto

lemma distinct_dict_set: "distinct (map fst d) \<Longrightarrow> distinct (map fst (dict_set k v d))"
proof (induction d)
  case Nil
  then show ?case by simp
next
  case (Cons p d)
  have "fst ` set (dict_set k v d) = insert k (fst ` set d)" by (rule keys_dict_set)
  with Cons show ?case by auto
qed


lemma shots_ok_init: "shots_ok init_state"
  by (simp add: shots_ok_def init_state_def)

lemma shots_ok_progress: "shots_ok st \<Longrightarrow> shots_ok (progress_callback text p st)"
  by (simp add: shots_ok_def progress_callback_def)

lemma shots_ok_append: "shots_ok st \<Longrightarrow> shots_ok (append_entry ts txt st)"
  by (auto simp: shots_ok_def append_entry_def)

lemma shots_ok_capture:
  "shots_ok st \<Longrightarrow>
   shots_ok (append_entry ts txt
     (st\<lparr>captures := c, screenshots := dict_set ts path (screenshots st)\<rparr>))"
  by (auto simp: shots_ok_def append_entry_def keys_dict_set distinct_dict_set)

lemma shots_ok_log: "shots_ok st \<Longrightarrow> shots_ok (st\<lparr>captures := c\<rparr>)"
  by (simp add: shots_ok_def)

lemma shots_ok_process_segments:
  "shots_ok st \<Longrightarrow> shots_ok (snd (process_segments sdir interval start_time segs st))"
proof (induction segs arbitrary: st)
  case Nil
  then show ?case by simp
next
  case (Cons sr segs)
  note ok = Cons.prems
  show ?case
  proof (cases "strip (seg_text (fst sr)) = []")
    case True
    then show ?thesis using Cons.IH [OF ok] by simp
  next
    case False
    show ?thesis
    proof (cases "format_timestamp (seg_start (fst sr) + of_int start_time)")
      case (Inl e)
      then show ?thesis using False ok by simp
    next
      case (Inr ts)
      show ?thesis
      proof (cases "screenshot_due (seg_start (fst sr) + of_int start_time) interval")
        case (Inl e)
        then show ?thesis using False Inr ok by simp
      next
        case due: (Inr b)
        show ?thesis
        proof (cases b)
          case False
          then show ?thesis
            using \<open>strip (seg_text (fst sr)) \<noteq> []\<close> Inr due Cons.IH [OF shots_ok_append [OF ok]]
            by simp
        next
          case True
          show ?thesis
          proof (cases "extract_screenshot (snd sr)")
            case (Inl e)
            then show ?thesis
              using \<open>strip (seg_text (fst sr)) \<noteq> []\<close> Inr due True shots_ok_log [OF ok]
              by (simp add: Let_def)
          next
            case got: (Inr okb)
            show ?thesis
            proof (cases okb)
              case True
              then show ?thesis
                using \<open>strip (seg_text (fst sr)) \<noteq> []\<close> Inr due \<open>b\<close> got
                  Cons.IH [OF shots_ok_capture [OF ok]]
                by (simp add: Let_def)
            next
              case False
              then show ?thesis
                using \<open>strip (seg_text (fst sr)) \<noteq> []\<close> Inr due \<open>b\<close> got
                  Cons.IH [OF shots_ok_append [OF shots_ok_log [OF ok]]]
                by (simp add: Let_def)
            qed
          qed
        qed
      qed
    qed
  qed
qed

lemma shots_ok_process_chunks:
  "shots_ok st \<Longrightarrow> shots_ok (process_chunks sdir interval tr n ppc i starts st)"
proof (induction starts arbitrary: i st)
  case Nil
  then show ?case by simp
next
  case (Cons a starts)
  let ?st1 = "progress_callback
                  (''Transcribing chunk '' @ str_nat (i + 1) @ ''/'' @ str_nat n @ ''...'')
                  (25 + of_nat i * ppc) st"
  have ok1: "shots_ok ?st1" using Cons.prems by (rule shots_ok_progress)
  show ?case
  proof (cases "tr i")
    case (Inl e)
    then show ?thesis using Cons.IH [OF ok1] by (simp add: Let_def)
  next
    case (Inr segs)
    obtain r st2 where ps: "process_segments sdir interval a segs ?st1 = (r, st2)"
      by (cases "process_segments sdir interval a segs ?st1")
    have ok2: "shots_ok st2" using shots_ok_process_segments [OF ok1, of sdir interval a segs] ps by simp
    show ?thesis
    proof (cases r)
      case None
      then show ?thesis
        using Inr ps Cons.IH [OF shots_ok_progress [OF ok2]] by (simp add: Let_def)
    next
      case (Some e)
      then show ?thesis using Inr ps Cons.IH [OF ok2] by (simp add: Let_def)
    qed
  qed
qed

lemma persist_screenshots_keys:
  "fst ` set (persist_screenshots cp out d acc) \<subseteq> fst ` set acc \<union> fst ` set d"
proof (induction d arbitrary: acc)
  case Nil
  then show ?case by simp
next
  case (Cons kv d)
  show ?case using Cons.IH [of "if cp (snd kv) then dict_set (fst kv) (path_join out (basename (snd kv))) acc else acc"]
    by (auto simp: Let_def keys_dict_set split: if_splits)
qed

lemma persist_screenshots_distinct:
  "distinct (map fst acc) \<Longrightarrow> distinct (map fst (persist_screenshots cp out d acc))"
proof (induction d arbitrary: acc)
  case Nil
  then show ?case by simp
next
  case (Cons kv d)
  then show ?case by (simp add: Let_def distinct_dict_set)
qed

lemma process_video_result:
  assumes "snd (process_video w job_id chunk_duration interval) = Inr (chunks, shots)"
  shows "fst ` set shots \<subseteq> fst ` set chunks \<and> distinct (map fst shots)"
proof -
  from assms obtain files starts n where
    sp: "split_audio_into_chunks (splitter w) (path_join (temp_dir w) ''chunks'') chunk_duration
           = Inr (files, starts, n)"
    and ea: "extract_audio w = None" and ca: "convert_audio w = None"
    by (auto simp: process_video_def Let_def split: option.splits sum.splits)
  define st3 where "st3 = progress_callback (''Split audio into '' @ str_int n @ '' chunks'') 20
     (progress_callback ''Converted audio to WAV format'' 15
       (progress_callback ''Extracted audio from video'' 10
         (progress_callback ''Created temporary directory'' 5
           (progress_callback ''Starting video processing...'' 0 init_state))))"
  define st4 where "st4 = process_chunks (path_join (temp_dir w) ''screenshots'') interval
      (transcribe w) (length files) (progress_per_chunk (length files)) 0
      (take (length files) starts) st3"
  have ok3: "shots_ok st3" unfolding st3_def by (intro shots_ok_progress shots_ok_init)
  have ok4: "shots_ok st4" unfolding st4_def by (rule shots_ok_process_chunks [OF ok3])
  have res: "chunks = timestamped_chunks st4"
    "shots = persist_screenshots (copy_ok w)
               (path_join (path_join (cwd w) ''output'') job_id) (screenshots st4) []"
    using assms unfolding process_video_def Let_def ea ca sp st4_def st3_def
    by (simp_all add: progress_callback_def del: process_chunks.simps)
  have "fst ` set shots \<subseteq> fst ` set (screenshots st4)"
    unfolding res using persist_screenshots_keys [of "copy_ok w" _ "screenshots st4" "[]"] by simp
  moreover have "distinct (map fst shots)"
    unfolding res by (rule persist_screenshots_distinct) simp
  ultimately show ?thesis using ok4 unfolding res(1) shots_ok_def by blast
qed

lemma strip_hello: "strip ''hello'' = ''hello''" "strip ''again'' = ''again''"
  by (simp_all add: strip_def py_isspace_def)

lemma replicate_5: "replicate 5 c = [c, c, c, c, c]"
  by (simp add: eval_nat_numeral)

lemma floor_fifth: "\<lfloor>1 / 5 :: rat\<rfloor> = 0" "\<lfloor>7 / 10 :: rat\<rfloor> = 0" "\<lfloor>1 / 6 :: rat\<rfloor> = 0"
  by (rule floor_unique, simp, simp)+

lemma first_second_labels:
  "format_timestamp (1 / 5) = Inr ''0:00:00''" "format_timestamp (7 / 10) = Inr ''0:00:00''"
  by (simp_all add: format_timestamp_def py_int_def floor_fifth timedelta_str_def Let_def render_simps)

lemma first_second_due:
  "screenshot_due (1 / 5) 30 = Inr True" "screenshot_due (7 / 10) 30 = Inr True"
  by (simp_all add: screenshot_due_def py_mod_def py_int_def floor_fifth)

lemma first_second_paths:
  "screenshot_path ''/tmp/job/screenshots'' (1 / 5) = ''/tmp/job/screenshots/screenshot_000000.jpg''"
  "screenshot_path ''/tmp/job/screenshots'' (7 / 10) = ''/tmp/job/screenshots/screenshot_000000.jpg''"
  by (simp_all add: screenshot_path_def py_int_def floor_fifth fmt_0d_def path_join_def render_simps
        replicate_5)

lemma two_hits_segments:
  "process_segments ''/tmp/job/screenshots'' 30 0 two_hits st =
     (None, st\<lparr>timestamped_chunks := timestamped_chunks st @ [(''0:00:00'', ''hello''), (''0:00:00'', ''again'')],
              screenshots := dict_set ''0:00:00'' ''/tmp/job/screenshots/screenshot_000000.jpg''
                               (dict_set ''0:00:00'' ''/tmp/job/screenshots/screenshot_000000.jpg'' (screenshots st)),
              captures := captures st @ [(''/tmp/job/screenshots/screenshot_000000.jpg'', ''0:00:00''),
                                         (''/tmp/job/screenshots/screenshot_000000.jpg'', ''0:00:00'')]\<rparr>)"
  by (simp add: two_hits_def strip_hello first_second_labels first_second_due first_second_paths
        extract_screenshot_def append_entry_def Let_def)

lemma world_two_hits_split:
  "split_audio_into_chunks (splitter world_two_hits) dir 60 = Inr ([chunk_path dir 0], [0], 1)"
  by (simp add: split_audio_into_chunks_def num_chunks_of_def py_int_def floor_fifth world_two_hits_def)

lemma world_two_hits_run:
  "snd (process_video world_two_hits ''job'' 60 30) =
     Inr ([(''0:00:00'', ''hello''), (''0:00:00'', ''again'')],
          [(''0:00:00'', ''/app/output/job/screenshot_000000.jpg'')])"
  "captures (fst (process_video world_two_hits ''job'' 60 30)) =
     [(''/tmp/job/screenshots/screenshot_000000.jpg'', ''0:00:00''),
      (''/tmp/job/screenshots/screenshot_000000.jpg'', ''0:00:00'')]"
proof -
  have w: "extract_audio world_two_hits = None" "convert_audio world_two_hits = None"
    "temp_dir world_two_hits = ''/tmp/job''" "cwd world_two_hits = ''/app''"
    "transcribe world_two_hits = (\<lambda>i. Inr two_hits)" "copy_ok world_two_hits = (\<lambda>p. True)"
    by (simp_all add: world_two_hits_def)
  have pj: "path_join ''/tmp/job'' ''screenshots'' = ''/tmp/job/screenshots''"
    "path_join (path_join ''/app'' ''output'') ''job'' = ''/app/output/job''"
    "path_join ''/app/output/job'' (basename ''/tmp/job/screenshots/screenshot_000000.jpg'')
       = ''/app/output/job/screenshot_000000.jpg''"
    by (simp_all add: path_join_def basename_def)
  show "snd (process_video world_two_hits ''job'' 60 30) =
     Inr ([(''0:00:00'', ''hello''), (''0:00:00'', ''again'')],
          [(''0:00:00'', ''/app/output/job/screenshot_000000.jpg'')])"
    unfolding process_video_def Let_def w world_two_hits_split
    by (simp add: pj two_hits_segments progress_callback_def init_state_def progress_per_chunk_def Let_def)
  show "captures (fst (process_video world_two_hits ''job'' 60 30)) =
     [(''/tmp/job/screenshots/screenshot_000000.jpg'', ''0:00:00''),
      (''/tmp/job/screenshots/screenshot_000000.jpg'', ''0:00:00'')]"
    unfolding process_video_def Let_def w world_two_hits_split
    by (simp add: pj two_hits_segments progress_callback_def init_state_def progress_per_chunk_def Let_def)
qed

text \<open>
  Claim C10.  When \<open>process_video\<close> returns, every timestamp label that is a key of the
  returned screenshots dict is the label of an entry of the returned transcript.
\<close>

theorem screenshot_labels_in_transcript:
  assumes "snd (process_video w job_id chunk_duration interval) = Inr (chunks, shots)"
  shows "fst ` set shots \<subseteq> fst ` set chunks"
  using process_video_result [OF assms] by blast

theorem screenshot_labels_in_transcript_witness:
  "snd (process_video world_two_hits ''job'' 60 30) =
     Inr ([(''0:00:00'', ''hello''), (''0:00:00'', ''again'')],
          [(''0:00:00'', ''/app/output/job/screenshot_000000.jpg'')])
   \<and> fst ` set [(''0:00:00'', ''/app/output/job/screenshot_000000.jpg'')]
       \<subseteq> fst ` set [(''0:00:00'', ''hello''), (''0:00:00'', ''again'')]"
  using screenshot_labels_in_transcript [OF world_two_hits_run(1)] world_two_hits_run(1)
  by blast

section \<open>One screenshot per label: proofs\<close>





section \<open>Skipping a failed chunk: proofs\<close>

lemma process_segments_entries:
  "timestamped_chunks (snd (process_segments sdir interval start_time segs st)) =
     timestamped_chunks st @ chunk_entries sdir interval start_time segs"
proof (induction segs arbitrary: st)
  case Nil
  then show ?case by (simp add: chunk_entries_def init_state_def)
next
  case (Cons sr segs)
  have ce: "chunk_entries sdir interval start_time (sr # segs) =
      timestamped_chunks (snd (process_segments sdir interval start_time (sr # segs) init_state))"
    by (simp only: chunk_entries_def)
  have i0: "timestamped_chunks init_state = []" by (simp add: init_state_def)
  show ?case
    unfolding ce
    by (simp add: Let_def Cons.IH append_entry_def i0 split: sum.splits bool.splits)
qed

lemma process_chunks_entries:
  "timestamped_chunks (process_chunks sdir interval tr n ppc i starts st) =
     timestamped_chunks st
       @ concat (map (\<lambda>j. case tr (i + j) of Inl e \<Rightarrow> []
                                | Inr segs \<Rightarrow> chunk_entries sdir interval (starts ! j) segs)
                     [0..<length starts])"
proof (induction starts arbitrary: i st)
  case Nil
  then show ?case by simp
next
  case (Cons a starts)
  let ?f = "\<lambda>i starts j. case tr (i + j) of Inl e \<Rightarrow> []
                                | Inr segs \<Rightarrow> chunk_entries sdir interval (starts ! j) segs"
  let ?st1 = "progress_callback
                  (''Transcribing chunk '' @ str_nat (i + 1) @ ''/'' @ str_nat n @ ''...'')
                  (25 + of_nat i * ppc) st"
  have u: "[0..<length (a # starts)] = 0 # map Suc [0..<length starts]"
    unfolding map_Suc_upt by (simp add: upt_conv_Cons del: upt_Suc)
  have tl: "concat (map (?f i (a # starts)) [0..<length (a # starts)]) =
            ?f i (a # starts) 0 @ concat (map (?f (Suc i) starts) [0..<length starts])"
    unfolding u by (simp add: comp_def cong: sum.case_cong)
  have t1: "timestamped_chunks ?st1 = timestamped_chunks st" by (simp add: progress_callback_def)
  show ?case
  proof (cases "tr i")
    case (Inl e)
    then show ?thesis
      unfolding tl using Cons.IH [of "Suc i" ?st1] t1 by (simp add: Let_def)
  next
    case (Inr segs)
    obtain r st2 where ps: "process_segments sdir interval a segs ?st1 = (r, st2)"
      by (cases "process_segments sdir interval a segs ?st1")
    have t2: "timestamped_chunks st2 = timestamped_chunks st @ chunk_entries sdir interval a segs"
      using process_segments_entries [of sdir interval a segs ?st1] ps t1 by simp
    show ?thesis
    proof (cases r)
      case None
      let ?st3 = "progress_callback
                       (''Transcribed chunk '' @ str_nat (i + 1) @ ''/'' @ str_nat n)
                       (25 + of_nat i * ppc + ppc / 2) st2"
      have t3: "timestamped_chunks ?st3 = timestamped_chunks st2" by (simp add: progress_callback_def)
      show ?thesis
        unfolding tl using Cons.IH [of "Suc i" ?st3] t3 t2 Inr ps None by (simp add: Let_def)
    next
      case (Some e)
      show ?thesis
        unfolding tl using Cons.IH [of "Suc i" st2] t2 Inr ps Some by (simp add: Let_def)
    qed
  qed
qed

lemma concat_map_skip:
  "f k = [] \<Longrightarrow> concat (map f xs) = concat (map f (filter (\<lambda>j. j \<noteq> k) xs))"
  by (induction xs) auto

lemma carve_chunks_lengths:
  "carve_chunks ok dir d idx acc = Inr res \<Longrightarrow>
   length (fst res) = length (fst acc) + length idx \<and> length (snd res) = length (snd acc) + length idx"
proof (induction idx arbitrary: acc)
  case Nil
  then show ?case by auto
next
  case (Cons i idx)
  then show ?case by (auto split: if_splits)
qed

lemma split_lengths:
  assumes "split_audio_into_chunks env dir d = Inr (files, starts, n)"
  shows "length starts = length files"
proof -
  from assms obtain l m res where
    "carve_chunks (carve env) dir d [0..<nat m] ([], []) = Inr res" "files = fst res" "starts = snd res"
    by (auto simp: split_audio_into_chunks_def split: if_splits sum.splits)
  then show ?thesis using carve_chunks_lengths [of "carve env" dir d "[0..<nat m]" "([], [])" res]
    by simp
qed

lemma process_video_transcript:
  assumes ea: "extract_audio w = None" and ca: "convert_audio w = None"
    and sp: "split_audio_into_chunks (splitter w) (path_join (temp_dir w) ''chunks'') chunk_duration
           = Inr (files, starts, n)"
  shows "\<exists>shots. snd (process_video w job_id chunk_duration interval) =
           Inr (concat (map (chunk_contribution w interval starts) [0..<length files]), shots)"
proof -
  have len: "length starts = length files" using sp by (rule split_lengths)
  have tk: "take (length files) starts = starts" using len by simp
  have cc: "chunk_contribution w interval starts =
      (\<lambda>j. case transcribe w j of Inl e \<Rightarrow> []
           | Inr segs \<Rightarrow> chunk_entries (path_join (temp_dir w) ''screenshots'') interval (starts ! j) segs)"
    by (rule ext) (simp add: chunk_contribution_def)
  show ?thesis
    unfolding process_video_def Let_def ea ca sp
    by (simp add: process_chunks_entries progress_callback_def init_state_def len tk
          cc del: process_chunks.simps cong: sum.case_cong)
qed

lemma thread_completed:
  assumes "snd (process_video w job_id chunk_duration interval) = Inr (chunks, shots)"
    and "create_pdf w = Inr made"
  shows "status (last (process_video_thread w job_id chunk_duration interval r0)) = Label ''Completed''"
    and "progress (last (process_video_thread w job_id chunk_duration interval r0)) = 100"
    and "num_segments (last (process_video_thread w job_id chunk_duration interval r0)) = Some (length chunks)"
  unfolding process_video_thread_def Let_def assms
  by (simp_all del: ledger_writes.simps)

text \<open>
  Claim C6.  In a job whose audio extraction, conversion and splitting succeed and whose
  PDF writer does not raise, if the transcription of chunk \<open>k\<close> raises, the chunk loop goes
  on with the next chunk, the ledger's last record has status \<open>Completed\<close> and progress
  100, and \<open>num_segments\<close> is the number of transcript entries contributed by the other
  chunks, in order.
\<close>

theorem failed_chunk_is_skipped:
  assumes "extract_audio w = None" and "convert_audio w = None"
    and "split_audio_into_chunks (splitter w) (path_join (temp_dir w) ''chunks'') chunk_duration
           = Inr (files, starts, n)"
    and "create_pdf w = Inr made"
    and "k < length files" and "transcribe w k = Inl e"
  shows "status (last (process_video_thread w job_id chunk_duration interval r0)) = Label ''Completed''
       \<and> progress (last (process_video_thread w job_id chunk_duration interval r0)) = 100
       \<and> num_segments (last (process_video_thread w job_id chunk_duration interval r0)) =
           Some (length (concat (map (chunk_contribution w interval starts)
                                     (filter (\<lambda>j. j \<noteq> k) [0..<length files]))))
       \<and> (\<exists>shots. snd (process_video w job_id chunk_duration interval) =
             Inr (concat (map (chunk_contribution w interval starts)
                              (filter (\<lambda>j. j \<noteq> k) [0..<length files])), shots))"
proof -
  have skip: "chunk_contribution w interval starts k = []"
    using assms(6) by (simp add: chunk_contribution_def)
  from process_video_transcript [OF assms(1-3)] obtain shots where
    r: "snd (process_video w job_id chunk_duration interval) =
           Inr (concat (map (chunk_contribution w interval starts) [0..<length files]), shots)"
    by blast
  have c: "concat (map (chunk_contribution w interval starts) [0..<length files]) =
           concat (map (chunk_contribution w interval starts) (filter (\<lambda>j. j \<noteq> k) [0..<length files]))"
    using skip by (rule concat_map_skip)
  show ?thesis
    using thread_completed [OF r assms(4)] r unfolding c by blast
qed

lemma world3_split:
  "split_audio_into_chunks (splitter world3) dir 60 =
     Inr ([chunk_path dir 0, chunk_path dir 1, chunk_path dir 2], [0, 60, 120], 3)"
proof -
  have "\<forall>i. int i \<le> \<lfloor>125 / of_int 60 :: rat\<rfloor> \<longrightarrow> carve (splitter world3) i"
    by (simp add: world3_def)
  moreover have "[0..<3] = [0, 1, 2::nat]" by (simp add: upt_rec)
  ultimately show ?thesis
    using split_count_parts(1) [of 60 125 "splitter world3" dir]
    unfolding floor_125_60 by (simp add: world3_def)
qed

lemma floor_1207_10: "\<lfloor>1207 / 10 :: rat\<rfloor> = 120" by (rule floor_unique) simp_all

lemma world3_contributions:
  "chunk_contribution world3 30 [0, 60, 120] 0 = [(''0:00:00'', ''hello'')]"
  "chunk_contribution world3 30 [0, 60, 120] 2 = [(''0:02:00'', ''again'')]"
proof -
  have blank: "strip '' '' = []" by (simp add: strip_def py_isspace_def)
  have l: "format_timestamp (1207 / 10) = Inr ''0:02:00''"
    by (simp add: format_timestamp_def py_int_def floor_1207_10 timedelta_str_def Let_def render_simps)
  have d: "screenshot_due (1207 / 10) 30 = Inr True"
    by (simp add: screenshot_due_def py_mod_def py_int_def floor_1207_10)
  show "chunk_contribution world3 30 [0, 60, 120] 0 = [(''0:00:00'', ''hello'')]"
    by (simp add: chunk_contribution_def chunk_entries_def world3_def strip_hello blank
          first_second_labels first_second_due extract_screenshot_def append_entry_def
          init_state_def Let_def)
  show "chunk_contribution world3 30 [0, 60, 120] 2 = [(''0:02:00'', ''again'')]"
    by (simp add: chunk_contribution_def chunk_entries_def world3_def strip_hello l d
          extract_screenshot_def append_entry_def init_state_def Let_def)
qed

theorem failed_chunk_is_skipped_witness:
  "transcribe world3 1 = Inl RuntimeError
   \<and> status (last (process_video_thread world3 ''job'' 60 30 create_new_job)) = Label ''Completed''
   \<and> progress (last (process_video_thread world3 ''job'' 60 30 create_new_job)) = 100
   \<and> num_segments (last (process_video_thread world3 ''job'' 60 30 create_new_job)) = Some 2"
proof -
  have h: "extract_audio world3 = None" "convert_audio world3 = None"
    "split_audio_into_chunks (splitter world3) (path_join (temp_dir world3) ''chunks'') 60 =
       Inr ([chunk_path (path_join (temp_dir world3) ''chunks'') 0,
             chunk_path (path_join (temp_dir world3) ''chunks'') 1,
             chunk_path (path_join (temp_dir world3) ''chunks'') 2], [0, 60, 120], 3)"
    "create_pdf world3 = Inr True"
    "1 < length [chunk_path (path_join (temp_dir world3) ''chunks'') 0,
             chunk_path (path_join (temp_dir world3) ''chunks'') 1,
             chunk_path (path_join (temp_dir world3) ''chunks'') 2]"
    "transcribe world3 1 = Inl RuntimeError"
    by (simp_all add: world3_split) (simp_all add: world3_def)
  have f: "filter (\<lambda>j. j \<noteq> 1) [0..<length [chunk_path (path_join (temp_dir world3) ''chunks'') 0,
             chunk_path (path_join (temp_dir world3) ''chunks'') 1,
             chunk_path (path_join (temp_dir world3) ''chunks'') 2]] = [0, 2]"
    by (simp add: upt_rec)
  show ?thesis
    using failed_chunk_is_skipped [OF h, of "''job''" 30 create_new_job] h(6)
    unfolding f by (simp add: world3_contributions)
qed

section \<open>Text correction: proofs\<close>

lemma improve_fails:
  assumes "text \<noteq> []"
    and "gen (ollama_prompt text ctx) = GenerateRaises \<or> gen (ollama_prompt text ctx) = Response None"
  shows "improve_transcription_with_ollama gen text ctx = Inr text"
  using assms by (auto simp: improve_transcription_with_ollama_def)

lemma improve_step_fails:
  assumes "gen (ollama_prompt text ctx) = GenerateRaises \<or> gen (ollama_prompt text ctx) = Response None"
  shows "improve_step skip gen ctx text = text"
  using assms by (auto simp: improve_step_def improve_transcription_with_ollama_def)

lemma improve_step_down: "service_down env \<Longrightarrow> improve_step skip (generate env) ctx text = text"
  by (rule improve_step_fails) (simp add: service_down_def)

lemma cli_process_segments_down:
  "\<forall>sr \<in> set segs. service_down (snd sr) \<Longrightarrow>
   cli_process_segments False ctx sdir interval start_time segs st =
   cli_process_segments True ctx sdir interval start_time segs st"
proof (induction segs arbitrary: st)
  case Nil
  then show ?case by simp
next
  case (Cons sr segs)
  then have d: "service_down (snd sr)" and rest: "\<forall>sr \<in> set segs. service_down (snd sr)" by simp_all
  show ?case
    by (simp add: Let_def improve_step_down [OF d] Cons.IH [OF rest]
          split: sum.splits bool.splits)
qed

lemma cli_fallback_down:
  "service_down env \<Longrightarrow>
   cli_fallback False ctx sdir start_time raw env st = cli_fallback True ctx sdir start_time raw env st"
  by (simp add: cli_fallback_def improve_step_down Let_def cong: sum.case_cong)

lemma cli_process_chunks_down:
  "\<forall>c \<in> set chunks. service_down (fallback_env c)
       \<and> (\<forall>raw segs. whisper c = Inr (raw, segs) \<longrightarrow> (\<forall>sr \<in> set segs. service_down (snd sr))) \<Longrightarrow>
   cli_process_chunks False ctx sdir interval chunks st =
   cli_process_chunks True ctx sdir interval chunks st"
proof (induction chunks arbitrary: st)
  case Nil
  then show ?case by simp
next
  case (Cons c chunks)
  then have fb: "service_down (fallback_env c)"
    and sg: "\<And>raw segs. whisper c = Inr (raw, segs) \<Longrightarrow> \<forall>sr \<in> set segs. service_down (snd sr)"
    and rest: "\<forall>c \<in> set chunks. service_down (fallback_env c)
       \<and> (\<forall>raw segs. whisper c = Inr (raw, segs) \<longrightarrow> (\<forall>sr \<in> set segs. service_down (snd sr)))"
    by simp_all
  show ?case
  proof (cases "whisper c")
    case (Inl e)
    then show ?thesis using Cons.IH [OF rest] by simp
  next
    case (Inr res)
    obtain raw segs where res: "res = (raw, segs)" by (cases res)
    have s: "cli_process_segments False ctx sdir interval (chunk_start c) segs st =
             cli_process_segments True ctx sdir interval (chunk_start c) segs st"
      using sg [of raw segs] Inr res by (intro cli_process_segments_down) simp
    show ?thesis
      using Inr res s cli_fallback_down [OF fb] Cons.IH [OF rest] by simp
  qed
qed

text \<open>
  Claim C7.  When the text-correction call fails (it raises, or its response lacks the
  key \<open>response\<close>), \<open>improve_transcription_with_ollama\<close> returns the text it was given,
  and the step of \<open>main\<close> that uses it leaves the text unchanged without raising, for
  every text.  A run in which the service fails on every request, and a run whose
  connection test fails, produce exactly the state (transcript, file, screenshots) of the
  run with the correction stage switched off.
\<close>

theorem correction_failure_falls_back:
  "(text \<noteq> []
      \<and> (gen (ollama_prompt text ctx) = GenerateRaises \<or> gen (ollama_prompt text ctx) = Response None)
      \<longrightarrow> improve_transcription_with_ollama gen text ctx = Inr text)
   \<and> ((gen (ollama_prompt text ctx) = GenerateRaises \<or> gen (ollama_prompt text ctx) = Response None)
      \<longrightarrow> improve_step skip gen ctx text = text)
   \<and> ((\<forall>c \<in> set chunks. service_down (fallback_env c)
          \<and> (\<forall>raw segs. whisper c = Inr (raw, segs) \<longrightarrow> (\<forall>sr \<in> set segs. service_down (snd sr))))
      \<longrightarrow> cli_process_chunks False ctx sdir interval chunks st =
          cli_process_chunks True ctx sdir interval chunks st)
   \<and> cli_process_chunks (connection_test skip False) ctx sdir interval chunks st =
       cli_process_chunks True ctx sdir interval chunks st"
proof (intro conjI impI)
  assume "text \<noteq> []
      \<and> (gen (ollama_prompt text ctx) = GenerateRaises \<or> gen (ollama_prompt text ctx) = Response None)"
  then show "improve_transcription_with_ollama gen text ctx = Inr text"
    using improve_fails by blast
next
  assume "gen (ollama_prompt text ctx) = GenerateRaises \<or> gen (ollama_prompt text ctx) = Response None"
  then show "improve_step skip gen ctx text = text" by (rule improve_step_fails)
next
  assume "\<forall>c \<in> set chunks. service_down (fallback_env c)
          \<and> (\<forall>raw segs. whisper c = Inr (raw, segs) \<longrightarrow> (\<forall>sr \<in> set segs. service_down (snd sr)))"
  then show "cli_process_chunks False ctx sdir interval chunks st =
          cli_process_chunks True ctx sdir interval chunks st"
    by (rule cli_process_chunks_down)
next
  have "connection_test skip False = True" by (simp add: connection_test_def)
  then show "cli_process_chunks (connection_test skip False) ctx sdir interval chunks st =
       cli_process_chunks True ctx sdir interval chunks st" by simp
qed

lemma strip_sp_hello: "strip '' hello'' = ''hello''"
  by (simp add: strip_def py_isspace_def)

lemma label_60: "format_timestamp 60 = Inr ''0:01:00''"
  by (simp add: format_timestamp_def py_int_def timedelta_str_def Let_def render_simps)

lemma cli_two_chunks_skip:
  "cli_chunks (cli_process_chunks True None ''shots'' 30 cli_two_chunks cli_init) =
     [(''0:00:00'', ''hello''), (''0:01:00'', ''bye'')]"
  by (simp add: cli_two_chunks_def unreachable_def strip_sp_hello first_second_labels
        first_second_due label_60 cli_fallback_def cli_extract_screenshot_def cli_append_def
        improve_step_def cli_init_def Let_def)

theorem correction_failure_falls_back_witness:
  "improve_transcription_with_ollama (\<lambda>p. GenerateRaises) ''hello'' None = Inr ''hello''
   \<and> improve_step False (\<lambda>p. Response None) None ''hello'' = ''hello''
   \<and> cli_chunks (cli_process_chunks False None ''shots'' 30 cli_two_chunks cli_init) =
       [(''0:00:00'', ''hello''), (''0:01:00'', ''bye'')]"
proof -
  have d: "service_down unreachable" by (simp add: service_down_def unreachable_def)
  have all: "\<forall>c \<in> set cli_two_chunks. service_down (fallback_env c)
          \<and> (\<forall>raw segs. whisper c = Inr (raw, segs) \<longrightarrow> (\<forall>sr \<in> set segs. service_down (snd sr)))"
    by (simp add: cli_two_chunks_def d)
  have a: "improve_transcription_with_ollama (\<lambda>p. GenerateRaises) ''hello'' None = Inr ''hello''"
    using correction_failure_falls_back [of "''hello''" "\<lambda>p. GenerateRaises" None] by simp
  have b: "improve_step False (\<lambda>p. Response None) None ''hello'' = ''hello''"
    using correction_failure_falls_back [of "''hello''" "\<lambda>p. Response None" None False] by simp
  have c: "cli_process_chunks False None ''shots'' 30 cli_two_chunks cli_init =
          cli_process_chunks True None ''shots'' 30 cli_two_chunks cli_init"
    using correction_failure_falls_back [of "''hello''" "\<lambda>p. GenerateRaises" None False
        cli_two_chunks "''shots''" 30 cli_init] all by blast
  show ?thesis using a b unfolding c cli_two_chunks_skip by simp
qed

section \<open>Plain-text round trip: proofs\<close>

lemma split_blank_entry:
  assumes "nl \<notin> set e"
  shows "split_blank acc (e @ [nl, nl] @ rest) = (rev acc @ e) # split_blank [] rest"
  using assms
proof (induction e arbitrary: acc)
  case Nil
  then show ?case by simp
next
  case (Cons c e)
  then have c: "c \<noteq> nl" and e: "nl \<notin> set e" by auto
  obtain d ds where t: "e @ [nl, nl] @ rest = d # ds" by (cases "e @ [nl, nl] @ rest") auto
  have "split_blank acc ((c # e) @ [nl, nl] @ rest) = split_blank (c # acc) (e @ [nl, nl] @ rest)"
    using c t by simp
  also have "\<dots> = (rev (c # acc) @ e) # split_blank [] rest" using Cons.IH [OF e] .
  finally show ?case by simp
qed

lemma split_label_found:
  assumes "CHR '']'' \<notin> set ts"
  shows "split_label acc (ts @ ''] '' @ text) = Some (rev acc @ ts, text)"
  using assms
proof (induction ts arbitrary: acc)
  case Nil
  then show ?case by simp
next
  case (Cons c ts)
  then have c: "c \<noteq> CHR '']''" and r: "CHR '']'' \<notin> set ts" by auto
  obtain d ds where t: "ts @ ''] '' @ text = d # ds" by (cases "ts @ ''] '' @ text") auto
  have "split_label acc ((c # ts) @ ''] '' @ text) = split_label (c # acc) (ts @ ''] '' @ text)"
    using c t by simp
  also have "\<dots> = Some (rev (c # acc) @ ts, text)" using Cons.IH [OF r] .
  finally show ?case by simp
qed

lemma parse_block_entry:
  assumes "CHR '']'' \<notin> set (fst p)"
  shows "parse_block (''['' @ fst p @ ''] '' @ snd p) = Some p"
  using split_label_found [OF assms, of "[]" "snd p"] by (simp add: parse_block_def)

lemma split_blank_transcript:
  assumes "\<forall>p \<in> set ps. plain p"
  shows "split_blank [] (transcript_text ps) = map (\<lambda>p. ''['' @ fst p @ ''] '' @ snd p) ps @ [[]]"
  using assms
proof (induction ps)
  case Nil
  then show ?case by (simp add: transcript_text_def)
next
  case (Cons p ps)
  then have p: "plain p" and rest: "\<forall>p \<in> set ps. plain p" by simp_all
  have nonl: "nl \<notin> set (''['' @ fst p @ ''] '' @ snd p)"
    using p by (auto simp: plain_def nl_def)
  have "transcript_text (p # ps) = (''['' @ fst p @ ''] '' @ snd p) @ [nl, nl] @ transcript_text ps"
    by (simp add: transcript_text_def entry_def)
  then have "split_blank [] (transcript_text (p # ps)) =
      (''['' @ fst p @ ''] '' @ snd p) # split_blank [] (transcript_text ps)"
    using split_blank_entry [OF nonl, of "[]" "transcript_text ps"] by simp
  then show ?case using Cons.IH [OF rest] by simp
qed

lemma parse_blocks_entries:
  assumes "\<forall>p \<in> set ps. plain p"
  shows "parse_blocks (map (\<lambda>p. ''['' @ fst p @ ''] '' @ snd p) ps) = Some ps"
  using assms
proof (induction ps)
  case Nil
  then show ?case by simp
next
  case (Cons p ps)
  then have "CHR '']'' \<notin> set (fst p)" by (simp add: plain_def)
  then have "parse_block (''['' @ fst p @ ''] '' @ snd p) = Some p" by (rule parse_block_entry)
  then show ?case using Cons by simp
qed

text \<open>
  Claim C9 as stated fails: a text that contains a blank line followed by a bracketed
  label is written as one entry and read back as two.
\<close>

theorem round_trip_counterexample:
  "parse_transcript (transcript_text [(''a'', ''x'' @ [nl, nl] @ ''[b] y'')])
     = Some [(''a'', ''x''), (''b'', ''y'')]
   \<and> transcript_text [(''a'', ''x'' @ [nl, nl] @ ''[b] y'')]
     = transcript_text [(''a'', ''x''), (''b'', ''y'')]
   \<and> parse_transcript (transcript_text [(''a'', ''x'' @ [nl, nl] @ ''[b] y'')])
     \<noteq> Some [(''a'', ''x'' @ [nl, nl] @ ''[b] y'')]"
  by (simp add: parse_transcript_def transcript_text_def entry_def parse_block_def nl_def)

text \<open>
  Claim C9, as amended.  For every sequence of pairs in which no timestamp contains
  \<open>]\<close> or a newline and no text contains a newline, reading back the text that
  \<open>save_transcript_to_text\<close> writes gives the sequence itself.
\<close>

theorem round_trip:
  assumes "\<forall>p \<in> set ps. CHR '']'' \<notin> set (fst p) \<and> nl \<notin> set (fst p) \<and> nl \<notin> set (snd p)"
  shows "save_transcript_to_text True ps = (Some (transcript_text ps), True)
       \<and> parse_transcript (transcript_text ps) = Some ps"
proof -
  have pl: "\<forall>p \<in> set ps. plain p" using assms by (simp add: plain_def)
  have ne: "filter (\<lambda>b. b \<noteq> []) (map (\<lambda>p. ''['' @ fst p @ ''] '' @ snd p) ps @ [[]])
            = map (\<lambda>p. ''['' @ fst p @ ''] '' @ snd p) ps"
    by (induction ps) simp_all
  have "parse_transcript (transcript_text ps) = Some ps"
    unfolding parse_transcript_def split_blank_transcript [OF pl] ne
    by (rule parse_blocks_entries [OF pl])
  then show ?thesis by (simp add: save_transcript_to_text_def)
qed

theorem round_trip_witness:
  "parse_transcript (transcript_text [(''0:00:00'', ''hello''), (''0:01:00'', ''bye'')])
     = Some [(''0:00:00'', ''hello''), (''0:01:00'', ''bye'')]"
proof -
  have "\<forall>p \<in> set [(''0:00:00'', ''hello''), (''0:01:00'', ''bye'')].
          CHR '']'' \<notin> set (fst p) \<and> nl \<notin> set (fst p) \<and> nl \<notin> set (snd p)"
    by (simp add: nl_def)
  from round_trip [OF this] show ?thesis by blast
qed

end
